theory Spec2Isabelle
  imports Main
begin

section \<open>The hover video player: data model\<close>

text \<open>
  The component \<open>HoverVideoPlayer\<close> keeps one piece of React state
  (\<open>hoverPlayerState\<close>) and two refs of its own (\<open>pauseVideoTimeoutRef\<close>,
  \<open>isVideoLoadingRef\<close>), and it talks to a video element and to the browser's timers.
  The constants of \<open>HOVER_PLAYER_STATE\<close> are numbers, compared with \<open>>=\<close> and \<open><=\<close> in
  the guards, so the state is a natural number here and that it stays within the four
  constants is a property to prove.
\<close>

definition stopped :: nat where
  "stopped = 0"

definition attemptingToStop :: nat where
  "attemptingToStop = 1"

definition attemptingToStart :: nat where
  "attemptingToStart = 2"

definition playing :: nat where
  "playing = 3"

text \<open>
  The props the handlers read. \<open>pausedOverlay\<close> is a node that is only tested for
  truthiness (\<open>pausedOverlay ? overlayFadeTransitionDuration : 0\<close>), so it is the
  boolean of that test. The callbacks are not fields: an invocation is recorded in the
  trace below.
\<close>

record props =
  isFocused :: bool
  pausedOverlay :: bool
  overlayFadeTransitionDuration :: int
  shouldRestartOnVideoStopped :: bool

text \<open>The defaults of the component's parameter list.\<close>

definition defaultProps :: props where
  "defaultProps = \<lparr>isFocused = False, pausedOverlay = False,
     overlayFadeTransitionDuration = 400, shouldRestartOnVideoStopped = True\<rparr>"

text \<open>What the component reads and writes of \<open>videoRef.current\<close>.\<close>

record video_element =
  paused :: bool
  currentTime :: nat

text \<open>
  A timeout armed in the browser: the delay passed to \<open>setTimeout\<close> and what the
  callback's closure captured at that moment (\<open>shouldRestartOnVideoStopped\<close>; the
  loading flag is a ref and is read when the callback runs).
\<close>

record timeout =
  delay :: int
  restartOnStop :: bool

text \<open>
  Everything that crosses the component's boundary, oldest first: the two media events
  delivered to it, the callbacks it invokes and the commands it gives the video element.
\<close>

datatype interaction =
    Received_playing
  | Received_error
  | Call_onStartingVideo
  | Call_onStartedVideo
  | Call_onStoppingVideo
  | Call_onStoppedVideo
  | Call_onVideoPlaybackFailed
  | Video_play
  | Video_pause
  | Video_resetCurrentTime

text \<open>
  The component instance together with the part of the browser it owns: the video
  element, the table of armed timeouts (identifier and timeout, in arming order) and
  the next identifier \<open>setTimeout\<close> hands out. \<open>pauseVideoTimeoutRef\<close> is \<open>None\<close> for
  \<open>undefined\<close>; \<open>clearTimeout\<close> does not reset it, so it may name a timeout that is no
  longer armed.
\<close>

record component =
  hoverPlayerState :: nat
  pauseVideoTimeoutRef :: "nat option"
  isVideoLoadingRef :: bool
  video :: video_element
  timeouts :: "(nat \<times> timeout) list"
  nextTimeoutId :: nat
  trace :: "interaction list"

definition initial :: component where
  "initial = \<lparr>hoverPlayerState = stopped, pauseVideoTimeoutRef = None,
     isVideoLoadingRef = False, video = \<lparr>paused = True, currentTime = 0\<rparr>,
     timeouts = [], nextTimeoutId = 1, trace = []\<rparr>"

section \<open>Browser primitives\<close>

fun clearTimeout :: "nat option \<Rightarrow> component \<Rightarrow> component" where
  "clearTimeout None c = c"
| "clearTimeout (Some i) c = c\<lparr>timeouts := filter (\<lambda>e. fst e \<noteq> i) (timeouts c)\<rparr>"

definition setTimeout :: "timeout \<Rightarrow> component \<Rightarrow> nat \<times> component" where
  "setTimeout t c =
     (nextTimeoutId c,
      c\<lparr>timeouts := timeouts c @ [(nextTimeoutId c, t)],
        nextTimeoutId := Suc (nextTimeoutId c)\<rparr>)"

definition emit :: "interaction \<Rightarrow> component \<Rightarrow> component" where
  "emit x c = c\<lparr>trace := trace c @ [x]\<rparr>"

definition video_play :: "component \<Rightarrow> component" where
  "video_play c = emit Video_play (c\<lparr>video := (video c)\<lparr>paused := False\<rparr>\<rparr>)"

definition video_pause :: "component \<Rightarrow> component" where
  "video_pause c = emit Video_pause (c\<lparr>video := (video c)\<lparr>paused := True\<rparr>\<rparr>)"

definition video_resetCurrentTime :: "component \<Rightarrow> component" where
  "video_resetCurrentTime c =
     emit Video_resetCurrentTime (c\<lparr>video := (video c)\<lparr>currentTime := 0\<rparr>\<rparr>)"

section \<open>The handlers\<close>

text \<open>
  Each handler runs to completion, and React renders again before the next event is
  handled, so a handler reads the current \<open>hoverPlayerState\<close> and the current props.
  No handler reads \<open>hoverPlayerState\<close> after setting it.
\<close>

definition attemptStartVideo :: "component \<Rightarrow> component" where
  "attemptStartVideo c0 =
     (let c = clearTimeout (pauseVideoTimeoutRef c0) c0 in
      if hoverPlayerState c \<ge> attemptingToStart then c
      else if paused (video c) then
        video_play
          ((emit Call_onStartingVideo c)
             \<lparr>hoverPlayerState := attemptingToStart, isVideoLoadingRef := True\<rparr>)
      else if isVideoLoadingRef c then
        (emit Call_onStartingVideo c)\<lparr>hoverPlayerState := attemptingToStart\<rparr>
      else c\<lparr>hoverPlayerState := playing\<rparr>)"

text \<open>The arrow function passed to \<open>setTimeout\<close> in \<open>attemptStopVideo\<close>.\<close>

definition pauseVideoTimeoutCallback :: "timeout \<Rightarrow> component \<Rightarrow> component" where
  "pauseVideoTimeoutCallback t c0 =
     (let c1 = emit Call_onStoppedVideo (c0\<lparr>hoverPlayerState := stopped\<rparr>);
          c2 = (if \<not> isVideoLoadingRef c1 then video_pause c1 else c1)
      in if restartOnStop t then video_resetCurrentTime c2 else c2)"

definition attemptStopVideo :: "props \<Rightarrow> component \<Rightarrow> component" where
  "attemptStopVideo p c0 =
     (if isFocused p \<or> hoverPlayerState c0 \<le> attemptingToStop then c0
      else
        let c1 = emit Call_onStoppingVideo (c0\<lparr>hoverPlayerState := attemptingToStop\<rparr>);
            c2 = clearTimeout (pauseVideoTimeoutRef c1) c1;
            (i, c3) = setTimeout
              \<lparr>delay = (if pausedOverlay p then overlayFadeTransitionDuration p else 0),
               restartOnStop = shouldRestartOnVideoStopped p\<rparr> c2
        in c3\<lparr>pauseVideoTimeoutRef := Some i\<rparr>)"

text \<open>The \<open>onPlaying\<close> and \<open>onError\<close> handlers of the video element.\<close>

definition onPlaying :: "component \<Rightarrow> component" where
  "onPlaying c0 =
     (let c = c0\<lparr>isVideoLoadingRef := False\<rparr> in
      if hoverPlayerState c \<ge> attemptingToStart then
        emit Call_onStartedVideo (c\<lparr>hoverPlayerState := playing\<rparr>)
      else if hoverPlayerState c = stopped then video_pause c
      else c)"

definition onError :: "component \<Rightarrow> component" where
  "onError c = emit Call_onVideoPlaybackFailed (c\<lparr>hoverPlayerState := stopped\<rparr>)"

text \<open>The effect that depends on \<open>[isFocused]\<close>: it runs on mount and when the prop changes.\<close>

definition isFocusedEffect :: "props \<Rightarrow> component \<Rightarrow> component" where
  "isFocusedEffect p c = (if isFocused p then attemptStartVideo c else attemptStopVideo p c)"

section \<open>The event loop\<close>

text \<open>
  The browser runs an armed timeout by taking it out of the table and calling its
  callback; an identifier that is not armed runs nothing.
\<close>

definition runTimeout :: "nat \<Rightarrow> component \<Rightarrow> component" where
  "runTimeout i c =
     (case map_of (timeouts c) i of
        None \<Rightarrow> c
      | Some t \<Rightarrow> pauseVideoTimeoutCallback t (clearTimeout (Some i) c))"

text \<open>
  \<open>RequestStart\<close> stands for mouseenter, focus and touchstart on the container,
  \<open>RequestStop\<close> for mouseout, blur and a touchstart outside it. \<open>PropsChange\<close> is a
  render with new props, \<open>VideoChange\<close> anything the browser or the user does to the
  video element by itself (playback advancing, native controls, a refused play).
\<close>

datatype event =
    RequestStart
  | RequestStop
  | TimeoutElapses nat
  | MediaReady
  | MediaError
  | PropsChange props
  | VideoChange video_element

fun step :: "event \<Rightarrow> props \<times> component \<Rightarrow> props \<times> component" where
  "step RequestStart (p, c) = (p, attemptStartVideo c)"
| "step RequestStop (p, c) = (p, attemptStopVideo p c)"
| "step (TimeoutElapses i) (p, c) = (p, runTimeout i c)"
| "step MediaReady (p, c) = (p, onPlaying (emit Received_playing c))"
| "step MediaError (p, c) = (p, onError (emit Received_error c))"
| "step (PropsChange p') (p, c) =
     (p', if isFocused p' = isFocused p then c else isFocusedEffect p' c)"
| "step (VideoChange v) (p, c) = (p, c\<lparr>video := v\<rparr>)"

definition mount :: "props \<Rightarrow> props \<times> component" where
  "mount p = (p, isFocusedEffect p initial)"

definition run :: "event list \<Rightarrow> props \<times> component \<Rightarrow> props \<times> component" where
  "run evs w = fold step evs w"

text \<open>
  The spec's \<open>pendingStopTimer\<close>: the armed timeout that \<open>pauseVideoTimeoutRef\<close> names,
  if there is one.
\<close>

definition pendingStopTimer :: "component \<Rightarrow> timeout option" where
  "pendingStopTimer c =
     (case pauseVideoTimeoutRef c of
        None \<Rightarrow> None
      | Some i \<Rightarrow> map_of (timeouts c) i)"

section \<open>Invariants of the reachable components\<close>

text \<open>
  At most one timeout is armed, and it is the one \<open>pauseVideoTimeoutRef\<close> names; it is
  armed whenever the state is \<open>attemptingToStop\<close>, and only in the two lowest states.
\<close>

definition consistent :: "component \<Rightarrow> bool" where
  "consistent c \<longleftrightarrow>
     hoverPlayerState c \<le> playing
     \<and> (case timeouts c of
          [] \<Rightarrow> hoverPlayerState c \<noteq> attemptingToStop
        | [e] \<Rightarrow> pauseVideoTimeoutRef c = Some (fst e)
                 \<and> hoverPlayerState c \<le> attemptingToStop
        | _ \<Rightarrow> False)"

text \<open>Until a media error arrives, an armed timeout means \<open>attemptingToStop\<close> exactly.\<close>

definition settled :: "component \<Rightarrow> bool" where
  "settled c \<longleftrightarrow> timeouts c = [] \<or> hoverPlayerState c = attemptingToStop"

text \<open>
  A trace in which a \<open>play\<close> command has not been answered by a \<open>playing\<close> event yet.
\<close>

definition awaitingReady :: "interaction list \<Rightarrow> bool" where
  "awaitingReady tr \<longleftrightarrow>
     (\<exists>pre post. tr = pre @ Video_play # post \<and> Received_playing \<notin> set post)"

text \<open>
  Timeout \<open>i\<close>, if it is armed, is \<open>t\<close> and will find the loading flag down.
\<close>

definition pausesWhenRun :: "nat \<Rightarrow> timeout \<Rightarrow> component \<Rightarrow> bool" where
  "pausesWhenRun i t d \<longleftrightarrow>
     i < nextTimeoutId d
     \<and> (\<forall>e \<in> set (timeouts d). fst e = i \<longrightarrow> snd e = t \<and> \<not> isVideoLoadingRef d)"

section \<open>Preservation of the invariants\<close>

lemmas state_defs = stopped_def attemptingToStop_def attemptingToStart_def playing_def

lemmas prim_defs = emit_def video_play_def video_pause_def video_resetCurrentTime_def

lemma consistent_initial: "consistent initial" "settled initial"
  by (simp_all add: consistent_def settled_def initial_def state_defs)

lemma consistent_attemptStartVideo:
  "consistent c \<Longrightarrow> consistent (attemptStartVideo c) \<and> settled (attemptStartVideo c)"
  by (cases "pauseVideoTimeoutRef c")
     (auto simp: consistent_def settled_def attemptStartVideo_def Let_def prim_defs state_defs
        split: list.splits)

lemma consistent_attemptStopVideo: "consistent c \<Longrightarrow> consistent (attemptStopVideo p c)"
  by (cases "pauseVideoTimeoutRef c")
     (auto simp: consistent_def attemptStopVideo_def setTimeout_def Let_def prim_defs state_defs
        split: list.splits)

lemma settled_attemptStopVideo:
  "consistent c \<Longrightarrow> settled c \<Longrightarrow> settled (attemptStopVideo p c)"
  by (cases "pauseVideoTimeoutRef c")
     (auto simp: consistent_def settled_def attemptStopVideo_def setTimeout_def Let_def prim_defs
        state_defs split: list.splits)

lemma consistent_runTimeout:
  "consistent c \<Longrightarrow>
   consistent (runTimeout i c) \<and> (settled c \<longrightarrow> settled (runTimeout i c))"
  by (auto simp: consistent_def settled_def runTimeout_def pauseVideoTimeoutCallback_def Let_def
        prim_defs state_defs split: list.splits option.splits if_splits)

lemma consistent_onPlaying:
  "consistent c \<Longrightarrow> consistent (onPlaying c) \<and> (settled c \<longrightarrow> settled (onPlaying c))"
  by (auto simp: consistent_def settled_def onPlaying_def Let_def prim_defs state_defs
        split: list.splits)

lemma consistent_onError: "consistent c \<Longrightarrow> consistent (onError c)"
  by (auto simp: consistent_def onError_def Let_def prim_defs state_defs split: list.splits)

lemma consistent_emit: "consistent (emit x c) = consistent c" "settled (emit x c) = settled c"
  by (simp_all add: consistent_def settled_def emit_def split: list.splits)

lemma consistent_video:
  "consistent (c\<lparr>video := v\<rparr>) = consistent c" "settled (c\<lparr>video := v\<rparr>) = settled c"
  by (simp_all add: consistent_def settled_def split: list.splits)

lemma consistent_step: "consistent (snd w) \<Longrightarrow> consistent (snd (step e w))"
  by (cases e; cases w)
     (simp_all add: consistent_attemptStartVideo consistent_attemptStopVideo
        consistent_runTimeout consistent_onPlaying consistent_onError consistent_emit
        consistent_video isFocusedEffect_def)

lemma settled_step:
  "consistent (snd w) \<Longrightarrow> settled (snd w) \<Longrightarrow> e \<noteq> MediaError \<Longrightarrow> settled (snd (step e w))"
  by (cases e; cases w)
     (simp_all add: consistent_attemptStartVideo settled_attemptStopVideo consistent_runTimeout
        consistent_onPlaying consistent_emit consistent_video isFocusedEffect_def)

lemma run_Nil: "run [] w = w"
  by (simp add: run_def)

lemma run_Cons: "run (e # evs) w = run evs (step e w)"
  by (simp add: run_def)

lemma consistent_run: "consistent (snd w) \<Longrightarrow> consistent (snd (run evs w))"
  by (induction evs arbitrary: w) (simp_all add: run_Nil run_Cons consistent_step)

lemma settled_run:
  "consistent (snd w) \<Longrightarrow> settled (snd w) \<Longrightarrow> MediaError \<notin> set evs \<Longrightarrow>
   settled (snd (run evs w))"
proof (induction evs arbitrary: w)
  case Nil
  then show ?case by (simp add: run_Nil)
next
  case (Cons e evs)
  have "consistent (snd (step e w))"
    using Cons.prems(1) by (rule consistent_step)
  moreover have "settled (snd (step e w))"
    using Cons.prems by (intro settled_step) auto
  moreover have "MediaError \<notin> set evs"
    using Cons.prems(3) by simp
  ultimately have "settled (snd (run evs (step e w)))"
    by (rule Cons.IH)
  then show ?case by (simp add: run_Cons)
qed

lemma consistent_mount: "consistent (snd (mount p))" "settled (snd (mount p))"
  using consistent_attemptStartVideo [OF consistent_initial(1)]
    consistent_attemptStopVideo [OF consistent_initial(1), of p]
    settled_attemptStopVideo [OF consistent_initial, of p]
  by (simp_all add: mount_def isFocusedEffect_def)

lemma consistent_reachable: "consistent (snd (run evs (mount p)))"
  by (rule consistent_run) (rule consistent_mount)

lemma pendingStopTimer_armed:
  "consistent c \<Longrightarrow> pendingStopTimer c \<noteq> None \<longleftrightarrow> timeouts c \<noteq> []"
  by (auto simp: consistent_def pendingStopTimer_def split: list.splits option.splits)

lemmas handler_defs = attemptStartVideo_def attemptStopVideo_def onPlaying_def onError_def
  runTimeout_def pauseVideoTimeoutCallback_def isFocusedEffect_def setTimeout_def mount_def
  initial_def pendingStopTimer_def defaultProps_def Let_def

section \<open>State and pending timer\<close>

text \<open>
  C1, as the code has it. After any sequence of events from mount the state is one of
  the four constants; a pending stop timer means the state is \<open>attemptingToStop\<close> or
  \<open>stopped\<close>, and \<open>attemptingToStop\<close> always has its timer pending. When no media error
  is among the events (in particular for start and stop requests alone) the timer is
  pending exactly in \<open>attemptingToStop\<close>.
\<close>

theorem state_and_pendingStopTimer:
  assumes "c = snd (run evs (mount p))"
  shows "hoverPlayerState c \<in> {stopped, attemptingToStop, attemptingToStart, playing}
    \<and> (pendingStopTimer c \<noteq> None \<longrightarrow>
         hoverPlayerState c = attemptingToStop \<or> hoverPlayerState c = stopped)
    \<and> (hoverPlayerState c = attemptingToStop \<longrightarrow> pendingStopTimer c \<noteq> None)
    \<and> (MediaError \<notin> set evs \<longrightarrow>
         (pendingStopTimer c \<noteq> None \<longleftrightarrow> hoverPlayerState c = attemptingToStop))"
proof -
  have con: "consistent c"
    unfolding assms by (rule consistent_reachable)
  have pend: "pendingStopTimer c \<noteq> None \<longleftrightarrow> timeouts c \<noteq> []"
    using con by (rule pendingStopTimer_armed)
  have four: "hoverPlayerState c \<in> {stopped, attemptingToStop, attemptingToStart, playing}"
    using con by (auto simp: consistent_def state_defs)
  have low: "timeouts c \<noteq> [] \<longrightarrow>
      hoverPlayerState c = attemptingToStop \<or> hoverPlayerState c = stopped"
    using con by (auto simp: consistent_def state_defs split: list.splits)
  have armed: "hoverPlayerState c = attemptingToStop \<longrightarrow> timeouts c \<noteq> []"
    using con by (auto simp: consistent_def split: list.splits)
  have quiet: "MediaError \<notin> set evs \<longrightarrow>
      timeouts c = [] \<or> hoverPlayerState c = attemptingToStop"
    using settled_run [OF consistent_mount, of evs p] by (simp add: assms settled_def)
  show ?thesis
    using pend four low armed quiet by blast
qed

theorem state_and_pendingStopTimer_witness:
  "MediaError \<notin> set [RequestStart, MediaReady, RequestStop]
   \<and> pendingStopTimer (snd (run [RequestStart, MediaReady, RequestStop] (mount defaultProps)))
       \<noteq> None
   \<and> hoverPlayerState (snd (run [RequestStart, MediaReady, RequestStop] (mount defaultProps)))
       = attemptingToStop"
  using state_and_pendingStopTimer
    [of "snd (run [RequestStart, MediaReady, RequestStop] (mount defaultProps))"
        "[RequestStart, MediaReady, RequestStop]" defaultProps]
  by (simp add: run_def handler_defs prim_defs state_defs)

text \<open>
  The claim as the spec words it fails once a media error is among the events: \<open>onError\<close>
  sets the state to \<open>stopped\<close> and leaves the armed timeout alone.
\<close>

theorem pendingStopTimer_while_stopped:
  "pendingStopTimer
     (snd (run [RequestStart, MediaReady, RequestStop, MediaError] (mount defaultProps)))
     \<noteq> None
   \<and> hoverPlayerState
     (snd (run [RequestStart, MediaReady, RequestStop, MediaError] (mount defaultProps)))
     \<noteq> attemptingToStop"
  by (simp add: run_def handler_defs prim_defs state_defs)

section \<open>Media readiness\<close>

text \<open>
  C7. \<open>onPlaying\<close> always leaves the loading flag false. From a state at or above
  \<open>attemptingToStart\<close> it moves to \<open>playing\<close>, invokes \<open>onStartedVideo\<close> and changes
  nothing else; from \<open>stopped\<close> it pauses the video, stays \<open>stopped\<close> and invokes no
  callback.
\<close>

theorem onPlaying_spec:
  "isVideoLoadingRef (onPlaying c) = False
   \<and> (hoverPlayerState c \<ge> attemptingToStart \<longrightarrow>
        onPlaying c =
          c\<lparr>isVideoLoadingRef := False, hoverPlayerState := playing,
            trace := trace c @ [Call_onStartedVideo]\<rparr>)
   \<and> (hoverPlayerState c = stopped \<longrightarrow>
        onPlaying c =
          c\<lparr>isVideoLoadingRef := False, video := (video c)\<lparr>paused := True\<rparr>,
            trace := trace c @ [Video_pause]\<rparr>
        \<and> hoverPlayerState (onPlaying c) = stopped)"
  by (simp add: onPlaying_def Let_def prim_defs state_defs)

theorem onPlaying_spec_witness:
  "hoverPlayerState (snd (run [RequestStart] (mount defaultProps))) \<ge> attemptingToStart
   \<and> hoverPlayerState (onPlaying (snd (run [RequestStart] (mount defaultProps)))) = playing
   \<and> trace (onPlaying (snd (run [RequestStart] (mount defaultProps))))
       = [Call_onStartingVideo, Video_play, Call_onStartedVideo]
   \<and> hoverPlayerState (snd (run [RequestStart, RequestStop, TimeoutElapses 1]
         (mount defaultProps))) = stopped
   \<and> hoverPlayerState (onPlaying (snd (run [RequestStart, RequestStop, TimeoutElapses 1]
         (mount defaultProps)))) = stopped
   \<and> trace (onPlaying (snd (run [RequestStart, RequestStop, TimeoutElapses 1]
         (mount defaultProps))))
       = [Call_onStartingVideo, Video_play, Call_onStoppingVideo, Call_onStoppedVideo,
          Video_resetCurrentTime, Video_pause]"
  using onPlaying_spec [of "snd (run [RequestStart] (mount defaultProps))"]
    onPlaying_spec
      [of "snd (run [RequestStart, RequestStop, TimeoutElapses 1] (mount defaultProps))"]
  by (simp add: run_def handler_defs prim_defs state_defs)

section \<open>Start requests\<close>

lemma consistent_high:
  "consistent c \<Longrightarrow> hoverPlayerState c \<ge> attemptingToStart \<Longrightarrow> timeouts c = []"
  by (auto simp: consistent_def state_defs split: list.splits)

lemma clearTimeout_consistent:
  "consistent c \<Longrightarrow> clearTimeout (pauseVideoTimeoutRef c) c = c\<lparr>timeouts := []\<rparr>"
  by (cases "pauseVideoTimeoutRef c") (auto simp: consistent_def split: list.splits)

lemma clearTimeout_fields:
  "hoverPlayerState (clearTimeout r c) = hoverPlayerState c"
  "isVideoLoadingRef (clearTimeout r c) = isVideoLoadingRef c"
  "video (clearTimeout r c) = video c"
  "trace (clearTimeout r c) = trace c"
  "pauseVideoTimeoutRef (clearTimeout r c) = pauseVideoTimeoutRef c"
  "nextTimeoutId (clearTimeout r c) = nextTimeoutId c"
  by (cases r; simp)+

text \<open>
  C2. In a component reached from mount, \<open>attemptStartVideo\<close> changes nothing when the
  state is \<open>attemptingToStart\<close> or \<open>playing\<close>. Below that it takes exactly one of three
  branches: with the video paused it invokes \<open>onStartingVideo\<close>, moves to
  \<open>attemptingToStart\<close>, raises the loading flag and calls \<open>play\<close> once; with the video
  not paused and the loading flag up it invokes \<open>onStartingVideo\<close> and moves to
  \<open>attemptingToStart\<close> without a command; otherwise it moves to \<open>playing\<close> with
  neither. A second call right after the first changes nothing, so from a paused video
  the two calls together make one \<open>onStartingVideo\<close> call and one \<open>play\<close>.
\<close>

theorem attemptStartVideo_spec:
  assumes "c = snd (run evs (mount p))"
  shows "(hoverPlayerState c \<ge> attemptingToStart \<longrightarrow> attemptStartVideo c = c)
    \<and> (hoverPlayerState c < attemptingToStart \<and> paused (video c) \<longrightarrow>
         attemptStartVideo c =
           c\<lparr>hoverPlayerState := attemptingToStart, isVideoLoadingRef := True,
             video := (video c)\<lparr>paused := False\<rparr>, timeouts := [],
             trace := trace c @ [Call_onStartingVideo, Video_play]\<rparr>)
    \<and> (hoverPlayerState c < attemptingToStart \<and> \<not> paused (video c) \<and> isVideoLoadingRef c \<longrightarrow>
         attemptStartVideo c =
           c\<lparr>hoverPlayerState := attemptingToStart, timeouts := [],
             trace := trace c @ [Call_onStartingVideo]\<rparr>)
    \<and> (hoverPlayerState c < attemptingToStart \<and> \<not> paused (video c) \<and> \<not> isVideoLoadingRef c \<longrightarrow>
         attemptStartVideo c = c\<lparr>hoverPlayerState := playing, timeouts := []\<rparr>)
    \<and> attemptStartVideo (attemptStartVideo c) = attemptStartVideo c
    \<and> (hoverPlayerState c < attemptingToStart \<and> paused (video c) \<longrightarrow>
         trace (attemptStartVideo (attemptStartVideo c))
           = trace c @ [Call_onStartingVideo, Video_play])"
proof -
  have con: "consistent c"
    unfolding assms by (rule consistent_reachable)
  have clr: "clearTimeout (pauseVideoTimeoutRef c) c = c\<lparr>timeouts := []\<rparr>"
    using con by (rule clearTimeout_consistent)
  have noop: "attemptStartVideo d = d" if "consistent d" "hoverPlayerState d \<ge> attemptingToStart" for d
    using that consistent_high [OF that] by (simp add: attemptStartVideo_def Let_def clearTimeout_consistent)
  have high: "hoverPlayerState (attemptStartVideo c) \<ge> attemptingToStart"
    by (simp add: attemptStartVideo_def Let_def clr prim_defs state_defs)
  have twice: "attemptStartVideo (attemptStartVideo c) = attemptStartVideo c"
    using noop [OF _ high] consistent_attemptStartVideo [OF con] by simp
  have b0: "hoverPlayerState c \<ge> attemptingToStart \<longrightarrow> attemptStartVideo c = c"
    using noop [OF con] by simp
  have b1: "hoverPlayerState c < attemptingToStart \<and> paused (video c) \<longrightarrow>
         attemptStartVideo c =
           c\<lparr>hoverPlayerState := attemptingToStart, isVideoLoadingRef := True,
             video := (video c)\<lparr>paused := False\<rparr>, timeouts := [],
             trace := trace c @ [Call_onStartingVideo, Video_play]\<rparr>"
    by (simp add: attemptStartVideo_def Let_def clr prim_defs)
  have b2: "hoverPlayerState c < attemptingToStart \<and> \<not> paused (video c) \<and> isVideoLoadingRef c \<longrightarrow>
         attemptStartVideo c =
           c\<lparr>hoverPlayerState := attemptingToStart, timeouts := [],
             trace := trace c @ [Call_onStartingVideo]\<rparr>"
    by (simp add: attemptStartVideo_def Let_def clr prim_defs)
  have b3: "hoverPlayerState c < attemptingToStart \<and> \<not> paused (video c) \<and> \<not> isVideoLoadingRef c \<longrightarrow>
         attemptStartVideo c = c\<lparr>hoverPlayerState := playing, timeouts := []\<rparr>"
    by (simp add: attemptStartVideo_def Let_def clr prim_defs)
  have b5: "hoverPlayerState c < attemptingToStart \<and> paused (video c) \<longrightarrow>
         trace (attemptStartVideo (attemptStartVideo c))
           = trace c @ [Call_onStartingVideo, Video_play]"
  proof
    assume a: "hoverPlayerState c < attemptingToStart \<and> paused (video c)"
    have "trace (attemptStartVideo (attemptStartVideo c)) = trace (attemptStartVideo c)"
      by (simp only: twice)
    also have "\<dots> = trace c @ [Call_onStartingVideo, Video_play]"
      using b1 a by simp
    finally show "trace (attemptStartVideo (attemptStartVideo c))
           = trace c @ [Call_onStartingVideo, Video_play]" .
  qed
  show ?thesis
    using b0 b1 b2 b3 twice b5 by blast
qed

theorem attemptStartVideo_spec_witness:
  "hoverPlayerState (snd (run [RequestStart] (mount defaultProps))) \<ge> attemptingToStart
   \<and> attemptStartVideo (snd (run [RequestStart] (mount defaultProps)))
       = snd (run [RequestStart] (mount defaultProps))
   \<and> hoverPlayerState (snd (mount defaultProps)) < attemptingToStart
   \<and> paused (video (snd (mount defaultProps)))
   \<and> trace (attemptStartVideo (attemptStartVideo (snd (mount defaultProps))))
       = [Call_onStartingVideo, Video_play]
   \<and> hoverPlayerState (snd (run [RequestStart, RequestStop, TimeoutElapses 1]
         (mount defaultProps))) < attemptingToStart
   \<and> \<not> paused (video (snd (run [RequestStart, RequestStop, TimeoutElapses 1]
         (mount defaultProps))))
   \<and> isVideoLoadingRef (snd (run [RequestStart, RequestStop, TimeoutElapses 1]
         (mount defaultProps)))
   \<and> trace (attemptStartVideo (snd (run [RequestStart, RequestStop, TimeoutElapses 1]
         (mount defaultProps))))
       = [Call_onStartingVideo, Video_play, Call_onStoppingVideo, Call_onStoppedVideo,
          Video_resetCurrentTime, Call_onStartingVideo]
   \<and> hoverPlayerState (snd (run [RequestStart, MediaReady, RequestStop]
         (mount defaultProps))) < attemptingToStart
   \<and> \<not> paused (video (snd (run [RequestStart, MediaReady, RequestStop]
         (mount defaultProps))))
   \<and> \<not> isVideoLoadingRef (snd (run [RequestStart, MediaReady, RequestStop]
         (mount defaultProps)))
   \<and> hoverPlayerState (attemptStartVideo (snd (run [RequestStart, MediaReady, RequestStop]
         (mount defaultProps)))) = playing
   \<and> trace (attemptStartVideo (snd (run [RequestStart, MediaReady, RequestStop]
         (mount defaultProps))))
       = [Call_onStartingVideo, Video_play, Received_playing, Call_onStartedVideo,
          Call_onStoppingVideo]"
  using attemptStartVideo_spec
      [of "snd (run [RequestStart] (mount defaultProps))" "[RequestStart]" defaultProps]
    attemptStartVideo_spec [of "snd (mount defaultProps)" "[]" defaultProps]
    attemptStartVideo_spec
      [of "snd (run [RequestStart, RequestStop, TimeoutElapses 1] (mount defaultProps))"
          "[RequestStart, RequestStop, TimeoutElapses 1]" defaultProps]
    attemptStartVideo_spec
      [of "snd (run [RequestStart, MediaReady, RequestStop] (mount defaultProps))"
          "[RequestStart, MediaReady, RequestStop]" defaultProps]
  by (simp add: run_def handler_defs prim_defs state_defs)

section \<open>Stop requests\<close>

lemma consistent_above_stop:
  "consistent c \<Longrightarrow> hoverPlayerState c > attemptingToStop \<Longrightarrow> timeouts c = []"
  by (auto simp: consistent_def state_defs split: list.splits)

lemma attemptStopVideo_passing:
  assumes "\<not> isFocused p" and "hoverPlayerState c > attemptingToStop"
  shows "attemptStopVideo p c =
    c\<lparr>hoverPlayerState := attemptingToStop,
      pauseVideoTimeoutRef := Some (nextTimeoutId c),
      timeouts := filter (\<lambda>e. Some (fst e) \<noteq> pauseVideoTimeoutRef c) (timeouts c)
        @ [(nextTimeoutId c,
            \<lparr>delay = (if pausedOverlay p then overlayFadeTransitionDuration p else 0),
             restartOnStop = shouldRestartOnVideoStopped p\<rparr>)],
      nextTimeoutId := Suc (nextTimeoutId c),
      trace := trace c @ [Call_onStoppingVideo]\<rparr>"
  using assms
  by (cases "pauseVideoTimeoutRef c")
     (simp_all add: attemptStopVideo_def setTimeout_def Let_def emit_def)

lemma runTimeout_armed:
  assumes "map_of (timeouts d) i = Some t"
  shows "hoverPlayerState (runTimeout i d) = stopped"
    and "trace (runTimeout i d) =
      trace d @ [Call_onStoppedVideo]
        @ (if isVideoLoadingRef d then [] else [Video_pause])
        @ (if restartOnStop t then [Video_resetCurrentTime] else [])"
    and "currentTime (video (runTimeout i d)) =
      (if restartOnStop t then 0 else currentTime (video d))"
    and "paused (video (runTimeout i d)) = (if isVideoLoadingRef d then paused (video d) else True)"
    and "isVideoLoadingRef (runTimeout i d) = isVideoLoadingRef d"
    and "timeouts (runTimeout i d) = filter (\<lambda>e. fst e \<noteq> i) (timeouts d)"
  using assms
  by (simp_all add: runTimeout_def pauseVideoTimeoutCallback_def Let_def prim_defs)

text \<open>
  C3. In a component reached from mount, when the \<open>isFocused\<close> prop is false and the
  state is above \<open>attemptingToStop\<close>, \<open>attemptStopVideo\<close> moves to \<open>attemptingToStop\<close>,
  invokes \<open>onStoppingVideo\<close> and leaves exactly one timeout armed, the new one, which
  \<open>pauseVideoTimeoutRef\<close> names; its delay is \<open>overlayFadeTransitionDuration\<close> with a
  paused overlay and 0 without. Whenever that timeout runs, in whatever component \<open>d\<close>
  it is still armed, it sets the state to \<open>stopped\<close>, invokes \<open>onStoppedVideo\<close>, pauses
  the video exactly when the loading flag of \<open>d\<close> is down, and resets \<open>currentTime\<close>
  exactly when \<open>shouldRestartOnVideoStopped\<close> was set at the stop request.
\<close>

theorem attemptStopVideo_spec:
  assumes "c = snd (run evs (mount p0))"
    and "\<not> isFocused p" and "hoverPlayerState c > attemptingToStop"
    and "t = \<lparr>delay = (if pausedOverlay p then overlayFadeTransitionDuration p else 0),
              restartOnStop = shouldRestartOnVideoStopped p\<rparr>"
  shows "attemptStopVideo p c =
      c\<lparr>hoverPlayerState := attemptingToStop,
        pauseVideoTimeoutRef := Some (nextTimeoutId c),
        timeouts := [(nextTimeoutId c, t)],
        nextTimeoutId := Suc (nextTimeoutId c),
        trace := trace c @ [Call_onStoppingVideo]\<rparr>
    \<and> pendingStopTimer (attemptStopVideo p c) = Some t
    \<and> (map_of (timeouts d) i = Some t \<longrightarrow>
          hoverPlayerState (runTimeout i d) = stopped
          \<and> trace (runTimeout i d) =
              trace d @ [Call_onStoppedVideo]
                @ (if isVideoLoadingRef d then [] else [Video_pause])
                @ (if shouldRestartOnVideoStopped p then [Video_resetCurrentTime] else [])
          \<and> currentTime (video (runTimeout i d)) =
              (if shouldRestartOnVideoStopped p then 0 else currentTime (video d))
          \<and> map_of (timeouts (runTimeout i d)) i = None)"
proof -
  have con: "consistent c"
    unfolding assms(1) by (rule consistent_reachable)
  have none: "timeouts c = []"
    using con assms(3) by (rule consistent_above_stop)
  have eq: "attemptStopVideo p c =
      c\<lparr>hoverPlayerState := attemptingToStop,
        pauseVideoTimeoutRef := Some (nextTimeoutId c),
        timeouts := [(nextTimeoutId c, t)],
        nextTimeoutId := Suc (nextTimeoutId c),
        trace := trace c @ [Call_onStoppingVideo]\<rparr>"
    using attemptStopVideo_passing [OF assms(2,3)] none assms(4) by simp
  have pend: "pendingStopTimer (attemptStopVideo p c) = Some t"
    by (simp add: eq pendingStopTimer_def)
  have fire: "map_of (timeouts d) i = Some t \<longrightarrow>
          hoverPlayerState (runTimeout i d) = stopped
          \<and> trace (runTimeout i d) =
              trace d @ [Call_onStoppedVideo]
                @ (if isVideoLoadingRef d then [] else [Video_pause])
                @ (if shouldRestartOnVideoStopped p then [Video_resetCurrentTime] else [])
          \<and> currentTime (video (runTimeout i d)) =
              (if shouldRestartOnVideoStopped p then 0 else currentTime (video d))
          \<and> map_of (timeouts (runTimeout i d)) i = None"
  proof
    assume a: "map_of (timeouts d) i = Some t"
    have r: "restartOnStop t = shouldRestartOnVideoStopped p"
      by (simp add: assms(4))
    have "map_of (filter (\<lambda>e. fst e \<noteq> i) (timeouts d)) i = None"
      by (auto simp: map_of_eq_None_iff)
    then show "hoverPlayerState (runTimeout i d) = stopped
          \<and> trace (runTimeout i d) =
              trace d @ [Call_onStoppedVideo]
                @ (if isVideoLoadingRef d then [] else [Video_pause])
                @ (if shouldRestartOnVideoStopped p then [Video_resetCurrentTime] else [])
          \<and> currentTime (video (runTimeout i d)) =
              (if shouldRestartOnVideoStopped p then 0 else currentTime (video d))
          \<and> map_of (timeouts (runTimeout i d)) i = None"
      using runTimeout_armed [OF a] r by simp
  qed
  show ?thesis
    using eq pend fire by blast
qed

theorem attemptStopVideo_spec_witness:
  "\<not> isFocused defaultProps
   \<and> hoverPlayerState (snd (run [RequestStart, MediaReady] (mount defaultProps)))
       > attemptingToStop
   \<and> pendingStopTimer
       (attemptStopVideo defaultProps (snd (run [RequestStart, MediaReady] (mount defaultProps))))
       = Some \<lparr>delay = 0, restartOnStop = True\<rparr>
   \<and> map_of (timeouts
       (attemptStopVideo defaultProps (snd (run [RequestStart, MediaReady] (mount defaultProps)))))
       1 = Some \<lparr>delay = 0, restartOnStop = True\<rparr>
   \<and> trace (runTimeout 1
       (attemptStopVideo defaultProps (snd (run [RequestStart, MediaReady] (mount defaultProps)))))
       = [Call_onStartingVideo, Video_play, Received_playing, Call_onStartedVideo,
          Call_onStoppingVideo, Call_onStoppedVideo, Video_pause, Video_resetCurrentTime]"
  using attemptStopVideo_spec
    [of "snd (run [RequestStart, MediaReady] (mount defaultProps))"
        "[RequestStart, MediaReady]" defaultProps defaultProps
        "\<lparr>delay = 0, restartOnStop = True\<rparr>"
        "attemptStopVideo defaultProps (snd (run [RequestStart, MediaReady] (mount defaultProps)))"
        1]
  by (simp add: run_def handler_defs prim_defs state_defs)

section \<open>A start request cancels the pending stop\<close>

lemma clearTimeout_subset: "set (timeouts (clearTimeout r c)) \<subseteq> set (timeouts c)"
  by (cases r) auto

lemma attemptStartVideo_timeouts:
  "nextTimeoutId (attemptStartVideo c) = nextTimeoutId c"
  "set (timeouts (attemptStartVideo c)) \<subseteq> set (timeouts c)"
  using clearTimeout_subset [of "pauseVideoTimeoutRef c" c]
  by (auto simp: attemptStartVideo_def Let_def prim_defs clearTimeout_fields)

lemma attemptStopVideo_timeouts:
  "nextTimeoutId c \<le> nextTimeoutId (attemptStopVideo p c)"
  "set (timeouts (attemptStopVideo p c)) \<subseteq>
     set (timeouts c) \<union> {e. nextTimeoutId c \<le> fst e \<and> fst e < nextTimeoutId (attemptStopVideo p c)}"
  using clearTimeout_subset [of "pauseVideoTimeoutRef c" c]
  by (cases "pauseVideoTimeoutRef c";
      auto simp: attemptStopVideo_def setTimeout_def Let_def prim_defs)+

lemma runTimeout_timeouts:
  "nextTimeoutId (runTimeout i c) = nextTimeoutId c"
  "set (timeouts (runTimeout i c)) \<subseteq> set (timeouts c)"
  by (auto simp: runTimeout_def pauseVideoTimeoutCallback_def Let_def prim_defs
      split: option.splits)

lemma onPlaying_timeouts:
  "nextTimeoutId (onPlaying c) = nextTimeoutId c" "timeouts (onPlaying c) = timeouts c"
  by (simp_all add: onPlaying_def Let_def prim_defs)

lemma onError_timeouts:
  "nextTimeoutId (onError c) = nextTimeoutId c" "timeouts (onError c) = timeouts c"
  by (simp_all add: onError_def prim_defs)

text \<open>Identifiers are handed out in increasing order and an armed one is never handed out again.\<close>

lemma step_timeouts:
  "nextTimeoutId (snd w) \<le> nextTimeoutId (snd (step ev w))
   \<and> set (timeouts (snd (step ev w))) \<subseteq>
     set (timeouts (snd w))
       \<union> {e. nextTimeoutId (snd w) \<le> fst e \<and> fst e < nextTimeoutId (snd (step ev w))}"
proof (cases w)
  case (Pair p c)
  show ?thesis
  proof (cases ev)
    case RequestStart
    then show ?thesis
      using attemptStartVideo_timeouts [where c = c] by (simp add: Pair le_supI1)
  next
    case RequestStop
    then show ?thesis
      using attemptStopVideo_timeouts [where c = c and p = p] by (simp add: Pair)
  next
    case (TimeoutElapses i)
    then show ?thesis
      using runTimeout_timeouts [where c = c and i = i] by (simp add: Pair le_supI1)
  next
    case MediaReady
    then show ?thesis
      by (simp add: Pair onPlaying_timeouts emit_def)
  next
    case MediaError
    then show ?thesis
      by (simp add: Pair onError_timeouts emit_def)
  next
    case (PropsChange p')
    then show ?thesis
      using attemptStartVideo_timeouts [where c = c]
        attemptStopVideo_timeouts [where c = c and p = p']
      by (simp add: Pair isFocusedEffect_def le_supI1)
  next
    case (VideoChange v)
    then show ?thesis
      by (simp add: Pair)
  qed
qed

lemma run_timeouts:
  "nextTimeoutId (snd w) \<le> nextTimeoutId (snd (run evs w))
   \<and> set (timeouts (snd (run evs w))) \<subseteq>
     set (timeouts (snd w))
       \<union> {e. nextTimeoutId (snd w) \<le> fst e \<and> fst e < nextTimeoutId (snd (run evs w))}"
proof (induction evs arbitrary: w)
  case Nil
  show ?case by (simp add: run_Nil)
next
  case (Cons ev evs)
  show ?case
  proof -
    have 1: "nextTimeoutId (snd w) \<le> nextTimeoutId (snd (step ev w))"
      and 2: "set (timeouts (snd (step ev w))) \<subseteq>
        set (timeouts (snd w))
          \<union> {e. nextTimeoutId (snd w) \<le> fst e \<and> fst e < nextTimeoutId (snd (step ev w))}"
      using step_timeouts [where w = w and ev = ev] by simp_all
    have 3: "nextTimeoutId (snd (step ev w)) \<le> nextTimeoutId (snd (run evs (step ev w)))"
      and 4: "set (timeouts (snd (run evs (step ev w)))) \<subseteq>
        set (timeouts (snd (step ev w)))
          \<union> {e. nextTimeoutId (snd (step ev w)) \<le> fst e
               \<and> fst e < nextTimeoutId (snd (run evs (step ev w)))}"
      using Cons.IH [where w = "step ev w"] by simp_all
    have "nextTimeoutId (snd w) \<le> nextTimeoutId (snd (run evs (step ev w)))"
      using 1 3 by (rule le_trans)
    moreover have "set (timeouts (snd (run evs (step ev w)))) \<subseteq>
        set (timeouts (snd w))
          \<union> {e. nextTimeoutId (snd w) \<le> fst e
               \<and> fst e < nextTimeoutId (snd (run evs (step ev w)))}"
    proof
      fix e
      assume "e \<in> set (timeouts (snd (run evs (step ev w))))"
      then consider "e \<in> set (timeouts (snd (step ev w)))"
        | "nextTimeoutId (snd (step ev w)) \<le> fst e
            \<and> fst e < nextTimeoutId (snd (run evs (step ev w)))"
        using 4 by blast
      then show "e \<in> set (timeouts (snd w))
          \<union> {e. nextTimeoutId (snd w) \<le> fst e
               \<and> fst e < nextTimeoutId (snd (run evs (step ev w)))}"
      proof cases
        case 1
        then consider "e \<in> set (timeouts (snd w))"
          | "nextTimeoutId (snd w) \<le> fst e \<and> fst e < nextTimeoutId (snd (step ev w))"
          using 2 by blast
        then show ?thesis
          using 3 by cases auto
      next
        case 2
        then show ?thesis
          using \<open>nextTimeoutId (snd w) \<le> nextTimeoutId (snd (step ev w))\<close> by auto
      qed
    qed
    ultimately show ?thesis
      by (simp add: run_Cons)
  qed
qed

lemma armed_below_next:
  "e \<in> set (timeouts (snd (run evs (mount p)))) \<Longrightarrow> fst e < nextTimeoutId (snd (run evs (mount p)))"
proof -
  assume a: "e \<in> set (timeouts (snd (run evs (mount p))))"
  have "timeouts initial = []"
    by (simp add: initial_def)
  then have "set (timeouts (snd (mount p))) \<subseteq>
      {e. fst e < nextTimeoutId (snd (mount p))}"
    using attemptStartVideo_timeouts [where c = initial]
      attemptStopVideo_timeouts [where c = initial and p = p]
    by (auto simp: mount_def isFocusedEffect_def)
  then show ?thesis
    using run_timeouts [where w = "mount p" and evs = evs] a by auto
qed

lemma attemptStartVideo_high: "attemptingToStart \<le> hoverPlayerState (attemptStartVideo c)"
  by (simp add: attemptStartVideo_def Let_def prim_defs clearTimeout_fields state_defs)

lemma attemptStartVideo_trace:
  "\<exists>ys. trace (attemptStartVideo c) = trace c @ ys \<and> set ys \<subseteq> {Call_onStartingVideo, Video_play}"
  by (simp add: attemptStartVideo_def Let_def prim_defs clearTimeout_fields)

lemma attemptStopVideo_trace:
  "\<exists>ys. trace (attemptStopVideo p c) = trace c @ ys \<and> set ys \<subseteq> {Call_onStoppingVideo}"
  by (cases "pauseVideoTimeoutRef c")
     (simp_all add: attemptStopVideo_def setTimeout_def Let_def prim_defs)

lemma runTimeout_unarmed: "map_of (timeouts c) i = None \<Longrightarrow> runTimeout i c = c"
  by (simp add: runTimeout_def)

text \<open>
  C4. From a component reached from mount, a stop request followed by a start request
  leaves no timeout armed and adds neither a \<open>pause\<close> command nor an \<open>onStoppedVideo\<close>
  call to the trace. Whatever timeout was armed after the stop request is never armed
  again, whatever events follow, so the browser running its identifier does nothing.
\<close>

theorem stop_then_start_cancels:
  assumes "c = snd (run evs (mount p0))"
    and "c1 = attemptStopVideo p c"
    and "c2 = attemptStartVideo c1"
  shows "timeouts c2 = []
    \<and> (\<exists>xs. trace c2 = trace c @ xs
          \<and> Video_pause \<notin> set xs \<and> Call_onStoppedVideo \<notin> set xs)
    \<and> (map_of (timeouts c1) i \<noteq> None \<longrightarrow>
          map_of (timeouts (snd (run evs' (p', c2)))) i = None
          \<and> runTimeout i (snd (run evs' (p', c2))) = snd (run evs' (p', c2)))"
proof -
  have con: "consistent c"
    unfolding assms(1) by (rule consistent_reachable)
  have con1: "consistent c1"
    unfolding assms(2) using con by (rule consistent_attemptStopVideo)
  have con2: "consistent c2"
    unfolding assms(3) using consistent_attemptStartVideo [OF con1] by simp
  have empty: "timeouts c2 = []"
    using con2 attemptStartVideo_high [of c1] unfolding assms(3) by (rule consistent_high)
  obtain ys where ys: "trace c1 = trace c @ ys" "set ys \<subseteq> {Call_onStoppingVideo}"
    using attemptStopVideo_trace [of p c] unfolding assms(2) by blast
  obtain zs where zs: "trace c2 = trace c1 @ zs" "set zs \<subseteq> {Call_onStartingVideo, Video_play}"
    using attemptStartVideo_trace [of c1] unfolding assms(3) by blast
  have quiet: "\<exists>xs. trace c2 = trace c @ xs
      \<and> Video_pause \<notin> set xs \<and> Call_onStoppedVideo \<notin> set xs"
  proof (intro exI conjI)
    show "trace c2 = trace c @ (ys @ zs)"
      using ys(1) zs(1) by simp
    show "Video_pause \<notin> set (ys @ zs)"
      using ys(2) zs(2) by auto
    show "Call_onStoppedVideo \<notin> set (ys @ zs)"
      using ys(2) zs(2) by auto
  qed
  have never: "map_of (timeouts c1) i \<noteq> None \<longrightarrow>
      map_of (timeouts (snd (run evs' (p', c2)))) i = None
      \<and> runTimeout i (snd (run evs' (p', c2))) = snd (run evs' (p', c2))"
  proof
    assume "map_of (timeouts c1) i \<noteq> None"
    then obtain t where "(i, t) \<in> set (timeouts c1)"
      by (auto dest: map_of_SomeD)
    then consider "(i, t) \<in> set (timeouts c)"
      | "nextTimeoutId c \<le> i \<and> i < nextTimeoutId c1"
      using attemptStopVideo_timeouts(2) [where c = c and p = p] unfolding assms(2) by auto
    then have "i < nextTimeoutId c1"
    proof cases
      case 1
      then have "i < nextTimeoutId c"
        using armed_below_next [of "(i, t)" evs p0] unfolding assms(1) by simp
      then show ?thesis
        using attemptStopVideo_timeouts(1) [where c = c and p = p] unfolding assms(2) by simp
    next
      case 2
      then show ?thesis by simp
    qed
    then have below: "i < nextTimeoutId c2"
      unfolding assms(3) by (simp add: attemptStartVideo_timeouts(1))
    have "set (timeouts (snd (run evs' (p', c2)))) \<subseteq> {e. nextTimeoutId c2 \<le> fst e}"
      using run_timeouts [where w = "(p', c2)" and evs = evs'] empty by auto
    then have "i \<notin> fst ` set (timeouts (snd (run evs' (p', c2))))"
      using below by auto
    then have "map_of (timeouts (snd (run evs' (p', c2)))) i = None"
      by (simp add: map_of_eq_None_iff)
    then show "map_of (timeouts (snd (run evs' (p', c2)))) i = None
      \<and> runTimeout i (snd (run evs' (p', c2))) = snd (run evs' (p', c2))"
      by (simp add: runTimeout_unarmed)
  qed
  show ?thesis
    using empty quiet never by blast
qed

theorem stop_then_start_cancels_witness:
  "map_of (timeouts
      (attemptStopVideo defaultProps (snd (run [RequestStart, MediaReady] (mount defaultProps)))))
      1 \<noteq> None
   \<and> map_of (timeouts (snd (run [TimeoutElapses 1]
      (defaultProps, attemptStartVideo
        (attemptStopVideo defaultProps
          (snd (run [RequestStart, MediaReady] (mount defaultProps)))))))) 1 = None
   \<and> trace (snd (run [TimeoutElapses 1]
      (defaultProps, attemptStartVideo
        (attemptStopVideo defaultProps
          (snd (run [RequestStart, MediaReady] (mount defaultProps)))))))
      = [Call_onStartingVideo, Video_play, Received_playing, Call_onStartedVideo,
         Call_onStoppingVideo]"
  using stop_then_start_cancels
    [of "snd (run [RequestStart, MediaReady] (mount defaultProps))"
        "[RequestStart, MediaReady]" defaultProps
        "attemptStopVideo defaultProps (snd (run [RequestStart, MediaReady] (mount defaultProps)))"
        defaultProps
        "attemptStartVideo
          (attemptStopVideo defaultProps
            (snd (run [RequestStart, MediaReady] (mount defaultProps))))"
        1 "[TimeoutElapses 1]" defaultProps]
  by (simp add: run_def handler_defs prim_defs state_defs)

section \<open>The loading flag\<close>

lemma awaitingReady_Nil: "\<not> awaitingReady []"
  by (simp add: awaitingReady_def)

lemma awaitingReady_snoc:
  "awaitingReady (tr @ [x]) =
     (if x = Video_play then True
      else if x = Received_playing then False
      else awaitingReady tr)"
proof -
  have play: "awaitingReady (tr @ [Video_play])"
    unfolding awaitingReady_def by (intro exI [of _ tr] exI [of _ "[]"]) simp
  have split: "awaitingReady (tr @ [x]) \<longleftrightarrow>
      x = Video_play \<or> (x \<noteq> Received_playing \<and> awaitingReady tr)"
  proof
    assume "awaitingReady (tr @ [x])"
    then obtain pre post where *: "tr @ [x] = pre @ Video_play # post"
      and **: "Received_playing \<notin> set post"
      unfolding awaitingReady_def by blast
    show "x = Video_play \<or> (x \<noteq> Received_playing \<and> awaitingReady tr)"
    proof (cases post rule: rev_cases)
      case Nil
      then have "tr @ [x] = pre @ [Video_play]"
        using * by simp
      then show ?thesis by simp
    next
      case (snoc post' y)
      then have "tr @ [x] = (pre @ Video_play # post') @ [y]"
        using * by simp
      then have "tr = pre @ Video_play # post'" and "x = y"
        by simp_all
      then show ?thesis
        using ** snoc unfolding awaitingReady_def by auto
    qed
  next
    assume "x = Video_play \<or> (x \<noteq> Received_playing \<and> awaitingReady tr)"
    then show "awaitingReady (tr @ [x])"
    proof
      assume "x = Video_play"
      then show ?thesis using play by simp
    next
      assume a: "x \<noteq> Received_playing \<and> awaitingReady tr"
      then obtain pre post where "tr = pre @ Video_play # post"
        and "Received_playing \<notin> set post"
        unfolding awaitingReady_def by blast
      then have "tr @ [x] = pre @ Video_play # (post @ [x])"
        and "Received_playing \<notin> set (post @ [x])"
        using a by auto
      then show ?thesis
        unfolding awaitingReady_def by blast
    qed
  qed
  show ?thesis
    using split by auto
qed

lemma loading_attemptStartVideo:
  "isVideoLoadingRef c = awaitingReady (trace c) \<Longrightarrow>
   isVideoLoadingRef (attemptStartVideo c) = awaitingReady (trace (attemptStartVideo c))"
  by (simp add: attemptStartVideo_def Let_def prim_defs clearTimeout_fields awaitingReady_snoc
      del: append_assoc)

lemma loading_attemptStopVideo:
  "isVideoLoadingRef c = awaitingReady (trace c) \<Longrightarrow>
   isVideoLoadingRef (attemptStopVideo p c) = awaitingReady (trace (attemptStopVideo p c))"
  by (cases "pauseVideoTimeoutRef c")
     (simp_all add: attemptStopVideo_def setTimeout_def Let_def prim_defs awaitingReady_snoc
      del: append_assoc)

lemma loading_runTimeout:
  "isVideoLoadingRef c = awaitingReady (trace c) \<Longrightarrow>
   isVideoLoadingRef (runTimeout i c) = awaitingReady (trace (runTimeout i c))"
  by (simp add: runTimeout_def pauseVideoTimeoutCallback_def Let_def prim_defs
      awaitingReady_snoc split: option.splits del: append_assoc)

lemma loading_onPlaying:
  "isVideoLoadingRef (onPlaying (emit Received_playing c))
     = awaitingReady (trace (onPlaying (emit Received_playing c)))"
  by (simp add: onPlaying_def Let_def prim_defs awaitingReady_snoc del: append_assoc)

lemma loading_onError:
  "isVideoLoadingRef c = awaitingReady (trace c) \<Longrightarrow>
   isVideoLoadingRef (onError (emit Received_error c))
     = awaitingReady (trace (onError (emit Received_error c)))"
  by (simp add: onError_def prim_defs awaitingReady_snoc del: append_assoc)

lemma loading_step:
  "isVideoLoadingRef (snd w) = awaitingReady (trace (snd w)) \<Longrightarrow>
   isVideoLoadingRef (snd (step ev w)) = awaitingReady (trace (snd (step ev w)))"
  by (cases ev; cases w)
     (simp_all add: loading_attemptStartVideo loading_attemptStopVideo loading_runTimeout
        loading_onPlaying loading_onError isFocusedEffect_def)

lemma loading_run:
  "isVideoLoadingRef (snd w) = awaitingReady (trace (snd w)) \<Longrightarrow>
   isVideoLoadingRef (snd (run evs w)) = awaitingReady (trace (snd (run evs w)))"
  by (induction evs arbitrary: w) (simp_all add: run_Nil run_Cons loading_step)

lemma loading_mount: "isVideoLoadingRef (snd (mount p)) = awaitingReady (trace (snd (mount p)))"
proof -
  have "isVideoLoadingRef initial = awaitingReady (trace initial)"
    by (simp add: initial_def awaitingReady_Nil)
  then show ?thesis
    using loading_attemptStartVideo [of initial] loading_attemptStopVideo [of initial p]
    by (simp add: mount_def isFocusedEffect_def)
qed

text \<open>
  What the flag records in the code: in a component reached from mount it is up exactly
  when a \<open>play\<close> command was given and no \<open>playing\<close> event has been delivered since.
\<close>

lemma isVideoLoadingRef_trace:
  assumes "c = snd (run evs (mount p))"
  shows "isVideoLoadingRef c \<longleftrightarrow>
      (\<exists>pre post. trace c = pre @ Video_play # post \<and> Received_playing \<notin> set post)"
proof -
  have "isVideoLoadingRef c = awaitingReady (trace c)"
    unfolding assms using loading_mount by (rule loading_run)
  then show ?thesis
    by (simp add: awaitingReady_def)
qed

text \<open>
  C5. The loading flag should be up only while a play attempt is under way: after a
  \<open>play\<close> command and before the \<open>playing\<close> or the \<open>error\<close> event that ends it, so that it
  is down right after \<open>onError\<close>. The code does not do this. \<open>onPlaying\<close> lowers the
  flag and \<open>onError\<close> does not: after a start request and a media error the flag is
  still up, although the error event was delivered after the \<open>play\<close> command. The next
  start request then finds the video not paused and the flag up, takes the branch for a
  video that is still loading, and invokes \<open>onStartingVideo\<close> without a \<open>play\<close> command.
\<close>

theorem isVideoLoadingRef_after_error:
  "isVideoLoadingRef (snd (run [RequestStart, MediaError] (mount defaultProps)))
   \<and> hoverPlayerState (snd (run [RequestStart, MediaError] (mount defaultProps))) = stopped
   \<and> trace (snd (run [RequestStart, MediaError] (mount defaultProps)))
       = [Call_onStartingVideo, Video_play, Received_error, Call_onVideoPlaybackFailed]
   \<and> isVideoLoadingRef (snd (run [RequestStart, MediaError, RequestStart] (mount defaultProps)))
   \<and> hoverPlayerState (snd (run [RequestStart, MediaError, RequestStart] (mount defaultProps)))
       = attemptingToStart
   \<and> trace (snd (run [RequestStart, MediaError, RequestStart] (mount defaultProps)))
       = [Call_onStartingVideo, Video_play, Received_error, Call_onVideoPlaybackFailed,
          Call_onStartingVideo]"
  by (simp add: run_def handler_defs prim_defs state_defs)

section \<open>Media errors\<close>

text \<open>
  C6. \<open>onError\<close> is total: from any component it sets the state to \<open>stopped\<close>, invokes
  \<open>onVideoPlaybackFailed\<close> and changes nothing else. A start request from \<open>stopped\<close>
  with the video paused, followed by a media error, goes through \<open>attemptingToStart\<close>
  back to \<open>stopped\<close>; the trace gains \<open>onStartingVideo\<close>, the \<open>play\<close> command, the
  error event and \<open>onVideoPlaybackFailed\<close>, and no \<open>pause\<close> command.
\<close>

theorem onError_spec:
  "onError c = c\<lparr>hoverPlayerState := stopped, trace := trace c @ [Call_onVideoPlaybackFailed]\<rparr>
   \<and> (hoverPlayerState c = stopped \<and> paused (video c) \<longrightarrow>
        hoverPlayerState (snd (run [RequestStart] (p, c))) = attemptingToStart
        \<and> hoverPlayerState (snd (run [RequestStart, MediaError] (p, c))) = stopped
        \<and> trace (snd (run [RequestStart, MediaError] (p, c)))
            = trace c @ [Call_onStartingVideo, Video_play, Received_error,
                         Call_onVideoPlaybackFailed])"
  by (simp add: run_def onError_def attemptStartVideo_def Let_def prim_defs clearTimeout_fields
      state_defs)

theorem onError_spec_witness:
  "hoverPlayerState initial = stopped \<and> paused (video initial)
   \<and> hoverPlayerState (snd (run [RequestStart] (defaultProps, initial))) = attemptingToStart
   \<and> hoverPlayerState (snd (run [RequestStart, MediaError] (defaultProps, initial))) = stopped
   \<and> trace (snd (run [RequestStart, MediaError] (defaultProps, initial)))
       = [Call_onStartingVideo, Video_play, Received_error, Call_onVideoPlaybackFailed]"
  using onError_spec [of initial defaultProps]
  by (simp add: initial_def)

section \<open>The isFocused override\<close>

text \<open>
  C8. While the \<open>isFocused\<close> prop is true a stop request changes nothing, however many
  there are: the component is returned as it was, trace included. A render that turns
  the prop on does what a start request does, a render that turns it off does what one
  stop request does under the new props, and a render that leaves it alone runs
  neither; mounting with the prop on starts the video.
\<close>

theorem isFocused_override:
  "(isFocused p \<longrightarrow>
      attemptStopVideo p c = c \<and> run (replicate n RequestStop) (p, c) = (p, c))
   \<and> (isFocused p' \<and> \<not> isFocused p \<longrightarrow>
      step (PropsChange p') (p, c) = (p', attemptStartVideo c))
   \<and> (\<not> isFocused p' \<and> isFocused p \<longrightarrow>
      step (PropsChange p') (p, c) = (p', attemptStopVideo p' c))
   \<and> (isFocused p' = isFocused p \<longrightarrow> step (PropsChange p') (p, c) = (p', c))
   \<and> (isFocused p \<longrightarrow> mount p = (p, attemptStartVideo initial))"
proof -
  have stop: "attemptStopVideo p c = c" if "isFocused p"
    using that by (simp add: attemptStopVideo_def)
  have many: "run (replicate n RequestStop) (p, c) = (p, c)" if "isFocused p"
    using stop [OF that] by (induction n) (simp_all add: run_Nil run_Cons)
  show ?thesis
    using stop many by (auto simp: isFocusedEffect_def mount_def)
qed

theorem isFocused_override_witness:
  "isFocused (defaultProps\<lparr>isFocused := True\<rparr>)
   \<and> \<not> isFocused defaultProps
   \<and> step (PropsChange (defaultProps\<lparr>isFocused := True\<rparr>)) (mount defaultProps)
       = (defaultProps\<lparr>isFocused := True\<rparr>, attemptStartVideo (snd (mount defaultProps)))
   \<and> run [RequestStop, RequestStop]
         (defaultProps\<lparr>isFocused := True\<rparr>, attemptStartVideo (snd (mount defaultProps)))
       = (defaultProps\<lparr>isFocused := True\<rparr>, attemptStartVideo (snd (mount defaultProps)))
   \<and> step (PropsChange defaultProps)
         (defaultProps\<lparr>isFocused := True\<rparr>, attemptStartVideo (snd (mount defaultProps)))
       = (defaultProps,
          attemptStopVideo defaultProps (attemptStartVideo (snd (mount defaultProps))))
   \<and> trace (attemptStopVideo defaultProps (attemptStartVideo (snd (mount defaultProps))))
       = [Call_onStartingVideo, Video_play, Call_onStoppingVideo]
   \<and> trace (snd (mount (defaultProps\<lparr>isFocused := True\<rparr>)))
       = [Call_onStartingVideo, Video_play]"
  using isFocused_override
      [of "defaultProps\<lparr>isFocused := True\<rparr>" "attemptStartVideo (snd (mount defaultProps))" 2
          "defaultProps\<lparr>isFocused := True\<rparr>"]
    isFocused_override
      [of defaultProps "snd (mount defaultProps)" 0 "defaultProps\<lparr>isFocused := True\<rparr>"]
    isFocused_override
      [of "defaultProps\<lparr>isFocused := True\<rparr>" "attemptStartVideo (snd (mount defaultProps))" 0
          defaultProps]
  by (simp add: run_def handler_defs prim_defs state_defs numeral_2_eq_2)

section \<open>Order of cancellation and guard\<close>

lemma map_of_filter_key: "map_of (filter (\<lambda>e. fst e \<noteq> i) xs) i = None"
  by (auto simp: map_of_eq_None_iff)

text \<open>
  C9, as the code has it. \<open>attemptStartVideo\<close> clears the timeout that
  \<open>pauseVideoTimeoutRef\<close> names before it looks at the state, so none is pending
  afterwards whatever the guard decides. \<open>attemptStopVideo\<close> tests its guard first: when
  the guard fails the component is returned unchanged, pending timeout included; when
  it passes, the named timeout is cleared and the new one is armed in its place.
\<close>

theorem cancellation_order:
  "pendingStopTimer (attemptStartVideo c) = None
   \<and> timeouts (attemptStartVideo c)
       = filter (\<lambda>e. Some (fst e) \<noteq> pauseVideoTimeoutRef c) (timeouts c)
   \<and> (isFocused p \<or> hoverPlayerState c \<le> attemptingToStop \<longrightarrow>
        attemptStopVideo p c = c)
   \<and> (\<not> isFocused p \<and> hoverPlayerState c > attemptingToStop \<longrightarrow>
        timeouts (attemptStopVideo p c)
          = filter (\<lambda>e. Some (fst e) \<noteq> pauseVideoTimeoutRef c) (timeouts c)
            @ [(nextTimeoutId c,
                \<lparr>delay = (if pausedOverlay p then overlayFadeTransitionDuration p else 0),
                 restartOnStop = shouldRestartOnVideoStopped p\<rparr>)]
        \<and> pauseVideoTimeoutRef (attemptStopVideo p c) = Some (nextTimeoutId c))"
proof -
  have ref: "pauseVideoTimeoutRef (attemptStartVideo c) = pauseVideoTimeoutRef c"
    by (simp add: attemptStartVideo_def Let_def prim_defs clearTimeout_fields)
  have tmo: "timeouts (attemptStartVideo c)
      = filter (\<lambda>e. Some (fst e) \<noteq> pauseVideoTimeoutRef c) (timeouts c)"
    by (cases "pauseVideoTimeoutRef c")
       (simp_all add: attemptStartVideo_def Let_def prim_defs)
  have gone: "pendingStopTimer (attemptStartVideo c) = None"
    by (cases "pauseVideoTimeoutRef c")
       (simp_all add: pendingStopTimer_def ref tmo map_of_filter_key)
  have skip: "isFocused p \<or> hoverPlayerState c \<le> attemptingToStop \<longrightarrow>
      attemptStopVideo p c = c"
    by (simp add: attemptStopVideo_def)
  have swap: "\<not> isFocused p \<and> hoverPlayerState c > attemptingToStop \<longrightarrow>
      timeouts (attemptStopVideo p c)
        = filter (\<lambda>e. Some (fst e) \<noteq> pauseVideoTimeoutRef c) (timeouts c)
          @ [(nextTimeoutId c,
              \<lparr>delay = (if pausedOverlay p then overlayFadeTransitionDuration p else 0),
               restartOnStop = shouldRestartOnVideoStopped p\<rparr>)]
      \<and> pauseVideoTimeoutRef (attemptStopVideo p c) = Some (nextTimeoutId c)"
    using attemptStopVideo_passing [of p c] by simp
  show ?thesis
    using gone tmo skip swap by blast
qed

theorem cancellation_order_witness:
  "hoverPlayerState (snd (run [RequestStart, MediaReady, RequestStop] (mount defaultProps)))
     \<le> attemptingToStop
   \<and> attemptStopVideo defaultProps
       (snd (run [RequestStart, MediaReady, RequestStop] (mount defaultProps)))
     = snd (run [RequestStart, MediaReady, RequestStop] (mount defaultProps))
   \<and> \<not> isFocused defaultProps
   \<and> hoverPlayerState (snd (run [RequestStart, MediaReady] (mount defaultProps)))
     > attemptingToStop
   \<and> timeouts (attemptStopVideo defaultProps
       (snd (run [RequestStart, MediaReady] (mount defaultProps))))
     = [(1, \<lparr>delay = 0, restartOnStop = True\<rparr>)]"
  using cancellation_order
    [of "snd (run [RequestStart, MediaReady, RequestStop] (mount defaultProps))" defaultProps]
    cancellation_order
    [of "snd (run [RequestStart, MediaReady] (mount defaultProps))" defaultProps]
  by (simp add: run_def handler_defs prim_defs state_defs)

text \<open>
  A stop request in \<open>attemptingToStop\<close> returns before \<open>clearTimeout\<close>: the timeout armed
  by the earlier stop request is still pending and no new one has been created.
\<close>

theorem stop_request_keeps_pending_timer:
  "hoverPlayerState (snd (run [RequestStart, MediaReady, RequestStop] (mount defaultProps)))
     \<le> attemptingToStop
   \<and> pendingStopTimer (snd (run [RequestStart, MediaReady, RequestStop] (mount defaultProps)))
     = Some \<lparr>delay = 0, restartOnStop = True\<rparr>
   \<and> pendingStopTimer
       (attemptStopVideo defaultProps
         (snd (run [RequestStart, MediaReady, RequestStop] (mount defaultProps))))
     = Some \<lparr>delay = 0, restartOnStop = True\<rparr>
   \<and> nextTimeoutId
       (attemptStopVideo defaultProps
         (snd (run [RequestStart, MediaReady, RequestStop] (mount defaultProps))))
     = nextTimeoutId (snd (run [RequestStart, MediaReady, RequestStop] (mount defaultProps)))"
  by (simp add: run_def handler_defs prim_defs state_defs)

section \<open>Readiness during a pending stop\<close>

lemma pausesWhenRun_attemptStartVideo:
  "consistent c \<Longrightarrow> i < nextTimeoutId c \<Longrightarrow> pausesWhenRun i t (attemptStartVideo c)"
  using consistent_high [OF _ attemptStartVideo_high, of c] consistent_attemptStartVideo [of c]
  by (simp add: pausesWhenRun_def attemptStartVideo_timeouts(1))

lemma pausesWhenRun_attemptStopVideo:
  "consistent c \<Longrightarrow> pausesWhenRun i t c \<Longrightarrow> pausesWhenRun i t (attemptStopVideo p c)"
  by (cases "pauseVideoTimeoutRef c")
     (auto simp: pausesWhenRun_def consistent_def attemptStopVideo_def setTimeout_def Let_def
        prim_defs state_defs split: list.splits)

lemma pausesWhenRun_runTimeout:
  "pausesWhenRun i t c \<Longrightarrow> pausesWhenRun i t (runTimeout j c)"
  by (auto simp: pausesWhenRun_def runTimeout_def pauseVideoTimeoutCallback_def Let_def
        prim_defs split: option.splits)

lemma pausesWhenRun_onPlaying:
  "i < nextTimeoutId c \<Longrightarrow> \<forall>e \<in> set (timeouts c). fst e = i \<longrightarrow> snd e = t \<Longrightarrow>
   pausesWhenRun i t (onPlaying c)"
  by (simp add: pausesWhenRun_def onPlaying_def Let_def prim_defs)

lemma pausesWhenRun_onError: "pausesWhenRun i t c \<Longrightarrow> pausesWhenRun i t (onError c)"
  by (simp add: pausesWhenRun_def onError_def prim_defs)

lemma pausesWhenRun_frame:
  "pausesWhenRun i t (emit x c) = pausesWhenRun i t c"
  "pausesWhenRun i t (c\<lparr>video := v\<rparr>) = pausesWhenRun i t c"
  by (simp_all add: pausesWhenRun_def emit_def)

lemma pausesWhenRun_step:
  assumes "consistent (snd w)" and "pausesWhenRun i t (snd w)"
  shows "pausesWhenRun i t (snd (step ev w))"
proof (cases w)
  case (Pair p c)
  have con: "consistent c" and inv: "pausesWhenRun i t c"
    using assms by (simp_all add: Pair)
  have below: "i < nextTimeoutId c"
    and same: "\<forall>e \<in> set (timeouts c). fst e = i \<longrightarrow> snd e = t"
    using inv by (simp_all add: pausesWhenRun_def)
  show ?thesis
  proof (cases ev)
    case RequestStart
    then show ?thesis
      using pausesWhenRun_attemptStartVideo [OF con below] by (simp add: Pair)
  next
    case RequestStop
    then show ?thesis
      using pausesWhenRun_attemptStopVideo [OF con inv] by (simp add: Pair)
  next
    case (TimeoutElapses j)
    then show ?thesis
      using pausesWhenRun_runTimeout [OF inv] by (simp add: Pair)
  next
    case MediaReady
    have "pausesWhenRun i t (onPlaying (emit Received_playing c))"
      using below same by (intro pausesWhenRun_onPlaying) (simp_all add: emit_def)
    then show ?thesis
      using MediaReady by (simp add: Pair)
  next
    case MediaError
    then show ?thesis
      using pausesWhenRun_onError [of i t "emit Received_error c"] inv
      by (simp add: Pair pausesWhenRun_frame)
  next
    case (PropsChange p')
    then show ?thesis
      using pausesWhenRun_attemptStartVideo [OF con below]
        pausesWhenRun_attemptStopVideo [OF con inv] inv
      by (simp add: Pair isFocusedEffect_def)
  next
    case (VideoChange v)
    then show ?thesis
      using inv by (simp add: Pair pausesWhenRun_frame)
  qed
qed

lemma pausesWhenRun_run:
  "consistent (snd w) \<Longrightarrow> pausesWhenRun i t (snd w) \<Longrightarrow> pausesWhenRun i t (snd (run evs w))"
  by (induction evs arbitrary: w)
     (simp_all add: run_Nil run_Cons consistent_step pausesWhenRun_step)

text \<open>
  C10. In a component reached from mount with state \<open>attemptingToStop\<close>, \<open>onPlaying\<close>
  only lowers the loading flag: state, trace, video and timeouts are unchanged. The
  timeout of the stop request is still pending, and in any component \<open>d\<close> reached
  afterwards in which it is still armed, running it sets the state to \<open>stopped\<close>,
  invokes \<open>onStoppedVideo\<close> and pauses the video.
\<close>

theorem onPlaying_while_attemptingToStop:
  assumes "c = snd (run evs (mount p))"
    and "hoverPlayerState c = attemptingToStop"
    and "d = snd (run evs' (p', onPlaying c))"
  shows "onPlaying c = c\<lparr>isVideoLoadingRef := False\<rparr>
    \<and> (\<exists>i t. pauseVideoTimeoutRef c = Some i \<and> timeouts (onPlaying c) = [(i, t)]
          \<and> pendingStopTimer (onPlaying c) = Some t
          \<and> (map_of (timeouts d) i \<noteq> None \<longrightarrow>
               hoverPlayerState (runTimeout i d) = stopped
               \<and> trace (runTimeout i d)
                   = trace d @ [Call_onStoppedVideo, Video_pause]
                       @ (if restartOnStop t then [Video_resetCurrentTime] else [])))"
proof -
  have con: "consistent c"
    unfolding assms(1) by (rule consistent_reachable)
  have eq: "onPlaying c = c\<lparr>isVideoLoadingRef := False\<rparr>"
    using assms(2) by (simp add: onPlaying_def Let_def state_defs)
  obtain i t where ref: "pauseVideoTimeoutRef c = Some i" and tmo: "timeouts c = [(i, t)]"
    using con assms(2) by (cases "timeouts c") (auto simp: consistent_def split: list.splits)
  have below: "i < nextTimeoutId c"
    using armed_below_next [of "(i, t)" evs p] tmo unfolding assms(1) by simp
  have con': "consistent (onPlaying c)"
    using consistent_onPlaying [OF con] by simp
  have "pausesWhenRun i t (onPlaying c)"
    using below tmo by (simp add: pausesWhenRun_def eq)
  then have inv: "pausesWhenRun i t d"
    unfolding assms(3) using con' by (intro pausesWhenRun_run) simp_all
  have fire: "map_of (timeouts d) i \<noteq> None \<longrightarrow>
      hoverPlayerState (runTimeout i d) = stopped
      \<and> trace (runTimeout i d)
          = trace d @ [Call_onStoppedVideo, Video_pause]
              @ (if restartOnStop t then [Video_resetCurrentTime] else [])"
  proof
    assume "map_of (timeouts d) i \<noteq> None"
    then obtain u where u: "map_of (timeouts d) i = Some u"
      by blast
    then have "(i, u) \<in> set (timeouts d)"
      by (rule map_of_SomeD)
    then have "u = t" and "\<not> isVideoLoadingRef d"
      using inv by (auto simp: pausesWhenRun_def)
    then show "hoverPlayerState (runTimeout i d) = stopped
      \<and> trace (runTimeout i d)
          = trace d @ [Call_onStoppedVideo, Video_pause]
              @ (if restartOnStop t then [Video_resetCurrentTime] else [])"
      using runTimeout_armed(1,2) [OF u] by simp
  qed
  have "pauseVideoTimeoutRef c = Some i \<and> timeouts (onPlaying c) = [(i, t)]
      \<and> pendingStopTimer (onPlaying c) = Some t"
    using ref tmo by (simp add: eq pendingStopTimer_def)
  then show ?thesis
    using eq fire by blast
qed

theorem onPlaying_while_attemptingToStop_witness:
  "hoverPlayerState (snd (run [RequestStart, RequestStop] (mount defaultProps)))
     = attemptingToStop
   \<and> isVideoLoadingRef (snd (run [RequestStart, RequestStop] (mount defaultProps)))
   \<and> onPlaying (snd (run [RequestStart, RequestStop] (mount defaultProps)))
     = (snd (run [RequestStart, RequestStop] (mount defaultProps)))\<lparr>isVideoLoadingRef := False\<rparr>
   \<and> map_of (timeouts (onPlaying (snd (run [RequestStart, RequestStop] (mount defaultProps)))))
       1 \<noteq> None
   \<and> trace (runTimeout 1
       (onPlaying (snd (run [RequestStart, RequestStop] (mount defaultProps)))))
     = [Call_onStartingVideo, Video_play, Call_onStoppingVideo, Call_onStoppedVideo,
        Video_pause, Video_resetCurrentTime]"
  using onPlaying_while_attemptingToStop
    [of "snd (run [RequestStart, RequestStop] (mount defaultProps))"
        "[RequestStart, RequestStop]" defaultProps
        "onPlaying (snd (run [RequestStart, RequestStop] (mount defaultProps)))"
        "[]" defaultProps]
  by (simp add: run_def handler_defs prim_defs state_defs)


end
